theory Spec2Isabelle
  imports Main
begin

section \<open>Data model\<close>

text \<open>
  A meme is the \<^verbatim>\<open>button.meme-container\<close> element built by \<^verbatim>\<open>generateMeme\<close>: an image,
  a text container with a top and a bottom paragraph, and a curtain. The record keeps
  what the script reads and writes of it:
  \<^item> \<open>imgSrc\<close>: the \<^verbatim>\<open>src\<close> attribute of the image;
  \<^item> \<open>topText\<close>, \<open>bottomText\<close>: the \<^verbatim>\<open>innerText\<close> of the two paragraphs;
  \<^item> \<open>fontSize\<close>: the integer that \<^verbatim>\<open>parseInt\<close> reads from the computed
    \<^verbatim>\<open>font-size\<close>, and that \<^verbatim>\<open>style.fontSize = n + "px"\<close> writes;
  \<^item> \<open>curtain\<close>: whether \<^verbatim>\<open>data-toggle-visibility\<close> of the curtain is \<^verbatim>\<open>'true'\<close>;
  \<^item> \<open>hoverListeners\<close>: whether the mouseover and mouseleave listeners were installed.
\<close>

record meme =
  imgSrc :: string
  topText :: string
  bottomText :: string
  fontSize :: int
  curtain :: bool
  hoverListeners :: bool

text \<open>
  The page: the three inputs of the form, the children of \<^verbatim>\<open>.meme-grid\<close> in document
  order, and the global \<^verbatim>\<open>oldWindowWidth\<close>. DOM elements have an identity, so a meme
  is addressed by its position in the grid.
\<close>

record page =
  imageUrlInput :: string
  topTextInput :: string
  bottomTextInput :: string
  memeGrid :: "meme list"
  oldWindowWidth :: int

text \<open>
  What the script reads from the browser while one handler runs: the width of the
  window, the hover media query, the font size that the style sheet gives a new meme
  container, and the layout, that is the \<^verbatim>\<open>offsetHeight\<close> of the two paragraphs and of
  the container of a meme. The style sheet and the layout engine are not part of the
  script, so they are parameters; the layout of a meme depends on that meme only.
  \<open>toUpperCaseOther\<close> is what the engine's \<^verbatim>\<open>String.prototype.toUpperCase\<close> returns
  for a string that has a character outside ASCII: the Unicode case tables, under which
  a string can also get longer, belong to the engine.
\<close>

record env =
  innerWidth :: int
  mqlHover :: bool
  cssFontSize :: int
  toUpperCaseOther :: "string \<Rightarrow> string"
  topOffsetHeight :: "meme \<Rightarrow> int"
  bottomOffsetHeight :: "meme \<Rightarrow> int"
  memeOffsetHeight :: "meme \<Rightarrow> int"

section \<open>Text fitting\<close>

definition textFits :: "env \<Rightarrow> meme \<Rightarrow> bool" where
  "textFits E memeContainer =
     (let textHeight = topOffsetHeight E memeContainer + bottomOffsetHeight E memeContainer;
          containerHeight = memeOffsetHeight E memeContainer
      in textHeight \<le> containerHeight)"

text \<open>
  The recursion of \<^verbatim>\<open>shrinkTextToFitHelper\<close> has no lower bound, so it is a partial
  function: \<open>None\<close> is the run that never reaches a fitting size (in a browser the call
  stack runs out). Font sizes are whole pixels. The model writes every size, also a
  negative one; a browser drops a negative \<^verbatim>\<open>font-size\<close>, which is the layout that
  gives a meme of negative size the heights it has at size 0.
\<close>

partial_function (option) shrinkTextToFitHelper :: "env \<Rightarrow> meme \<Rightarrow> int \<Rightarrow> meme option" where
  "shrinkTextToFitHelper E memeContainer oldFontSize =
     (if textFits E memeContainer then Some memeContainer
      else let newFontSize = oldFontSize - 1
           in shrinkTextToFitHelper E (memeContainer\<lparr>fontSize := newFontSize\<rparr>) newFontSize)"

text \<open>
  \<^verbatim>\<open>shrinkTextToFit\<close> gets a meme from \<^verbatim>\<open>forEach\<close>, or the load event of an image,
  whose parent element is the meme; \<open>step\<close> below resolves the event to the meme.
\<close>

definition shrinkTextToFit :: "env \<Rightarrow> meme \<Rightarrow> meme option" where
  "shrinkTextToFit E memeContainer =
     (let originalFontSize = fontSize memeContainer
      in shrinkTextToFitHelper E memeContainer originalFontSize)"

function growTextToFit :: "env \<Rightarrow> meme \<Rightarrow> meme option" where
  "growTextToFit E memeContainer =
     (if fontSize memeContainer \<ge> 40 then Some memeContainer
      else if \<not> textFits E memeContainer then shrinkTextToFit E memeContainer
      else let newFontSize = fontSize memeContainer + 1
           in growTextToFit E (memeContainer\<lparr>fontSize := newFontSize\<rparr>))"
  by pat_completeness auto
termination
  by (relation "measure (\<lambda>(E, m). nat (40 - fontSize m))") auto

text \<open>\<^verbatim>\<open>memeList.forEach(f)\<close>: the memes in order; a call that does not return stops all.\<close>

fun forEach :: "('a \<Rightarrow> 'a option) \<Rightarrow> 'a list \<Rightarrow> 'a list option" where
  "forEach f [] = Some []"
| "forEach f (x # xs) =
     (case f x of None \<Rightarrow> None
      | Some y \<Rightarrow> (case forEach f xs of None \<Rightarrow> None | Some ys \<Rightarrow> Some (y # ys)))"

definition adjustMemeTextSize :: "env \<Rightarrow> page \<Rightarrow> page option" where
  "adjustMemeTextSize E s =
     (let currentWindowWidth = innerWidth E;
          memeList = memeGrid s
      in if currentWindowWidth < oldWindowWidth s then
           (case forEach (shrinkTextToFit E) memeList of None \<Rightarrow> None
            | Some ms \<Rightarrow> Some (s\<lparr>memeGrid := ms, oldWindowWidth := currentWindowWidth\<rparr>))
         else if currentWindowWidth > oldWindowWidth s then
           (case forEach (growTextToFit E) memeList of None \<Rightarrow> None
            | Some ms \<Rightarrow> Some (s\<lparr>memeGrid := ms, oldWindowWidth := currentWindowWidth\<rparr>))
         else Some (s\<lparr>oldWindowWidth := currentWindowWidth\<rparr>))"

section \<open>Generating a meme\<close>

text \<open>
  \<^verbatim>\<open>String.prototype.toUpperCase\<close>. A \<open>string\<close> is the UTF-8 bytes of the text. On
  a string of ASCII characters only, the method maps the letters a to z to A to Z and
  keeps every other character; on any other string the result is the engine's.
\<close>

definition toUpperChar :: "char \<Rightarrow> char" where
  "toUpperChar c =
     (let n = (of_char c :: nat) in if 97 \<le> n \<and> n \<le> 122 then char_of (n - 32) else c)"

definition toUpperCase :: "env \<Rightarrow> string \<Rightarrow> string" where
  "toUpperCase E s =
     (if list_all (\<lambda>c. (of_char c :: nat) < 128) s then map toUpperChar s
      else toUpperCaseOther E s)"

text \<open>Assigning \<^verbatim>\<open>null\<close> to the value of an input leaves the empty string.\<close>

definition generateMeme :: "env \<Rightarrow> page \<Rightarrow> page" where
  "generateMeme E s =
     (let imageURL = imageUrlInput s;
          memeContainer =
            \<lparr>imgSrc = imageURL,
             topText = toUpperCase E (topTextInput s),
             bottomText = toUpperCase E (bottomTextInput s),
             fontSize = cssFontSize E,
             curtain = False,
             hoverListeners = mqlHover E\<rparr>
      in s\<lparr>memeGrid := memeGrid s @ [memeContainer],
           imageUrlInput := [], topTextInput := [], bottomTextInput := []\<rparr>)"

section \<open>Curtains and deletion\<close>

text \<open>
  The style sheet shows a curtain exactly when its \<^verbatim>\<open>data-toggle-visibility\<close> is
  \<^verbatim>\<open>'true'\<close>, which is what \<^verbatim>\<open>ownCurtainVisible\<close> reads from the computed style.
\<close>

definition ownCurtainVisible :: "meme \<Rightarrow> bool" where
  "ownCurtainVisible memeElement = curtain memeElement"

definition deleteMeme :: "nat \<Rightarrow> meme list \<Rightarrow> meme list" where
  "deleteMeme i ms = take i ms @ drop (Suc i) ms"

text \<open>\<^verbatim>\<open>document.querySelector\<close> finds the first visible curtain in document order.\<close>

fun removeCurtain :: "meme list \<Rightarrow> meme list" where
  "removeCurtain [] = []"
| "removeCurtain (m # ms) =
     (if curtain m then m\<lparr>curtain := False\<rparr> # ms else m # removeCurtain ms)"

definition addCurtain :: "nat \<Rightarrow> meme list \<Rightarrow> meme list" where
  "addCurtain i ms = ms[i := (ms ! i)\<lparr>curtain := True\<rparr>]"

text \<open>
  \<^verbatim>\<open>e.target.closest(".meme-container")\<close>: the position of the meme that holds the
  target of the event, \<open>None\<close> when the target is outside every meme.
\<close>

definition closest :: "meme list \<Rightarrow> nat option \<Rightarrow> nat option" where
  "closest ms target =
     (case target of None \<Rightarrow> None | Some i \<Rightarrow> if i < length ms then Some i else None)"

definition memeClickHandler :: "nat option \<Rightarrow> page \<Rightarrow> page" where
  "memeClickHandler target s =
     (case closest (memeGrid s) target of
        Some i \<Rightarrow>
          if ownCurtainVisible (memeGrid s ! i) then s\<lparr>memeGrid := deleteMeme i (memeGrid s)\<rparr>
          else s\<lparr>memeGrid := addCurtain i (removeCurtain (memeGrid s))\<rparr>
      | None \<Rightarrow> s\<lparr>memeGrid := removeCurtain (memeGrid s)\<rparr>)"

definition mouseOverHandler :: "nat \<Rightarrow> page \<Rightarrow> page" where
  "mouseOverHandler i s = s\<lparr>memeGrid := addCurtain i (removeCurtain (memeGrid s))\<rparr>"

definition mouseLeaveHandler :: "nat \<Rightarrow> page \<Rightarrow> page" where
  "mouseLeaveHandler i s = s\<lparr>memeGrid := removeCurtain (memeGrid s)\<rparr>"

section \<open>Events\<close>

text \<open>
  The events the script listens to. \<open>Edit\<close> is the user typing into the form, \<open>Load i\<close>
  the load event of the image of meme \<open>i\<close>. A mouse event reaches a handler only on a
  meme that got the listeners when it was generated. Each event is handled under the
  environment of its moment. The handler of the 580px media query only sets the
  placeholders of the inputs, which the page does not keep.
\<close>

datatype event =
    Edit string string string
  | Submit
  | Click "nat option"
  | MouseOver nat
  | MouseLeave nat
  | Resize
  | Load nat

definition step :: "env \<Rightarrow> event \<Rightarrow> page \<Rightarrow> page option" where
  "step E ev s =
     (case ev of
        Edit u t b \<Rightarrow> Some (s\<lparr>imageUrlInput := u, topTextInput := t, bottomTextInput := b\<rparr>)
      | Submit \<Rightarrow> Some (generateMeme E s)
      | Click target \<Rightarrow> Some (memeClickHandler target s)
      | MouseOver i \<Rightarrow>
          if i < length (memeGrid s) \<and> hoverListeners (memeGrid s ! i)
          then Some (mouseOverHandler i s) else Some s
      | MouseLeave i \<Rightarrow>
          if i < length (memeGrid s) \<and> hoverListeners (memeGrid s ! i)
          then Some (mouseLeaveHandler i s) else Some s
      | Resize \<Rightarrow> adjustMemeTextSize E s
      | Load i \<Rightarrow>
          if i < length (memeGrid s) then
            (case shrinkTextToFit E (memeGrid s ! i) of None \<Rightarrow> None
             | Some m \<Rightarrow> Some (s\<lparr>memeGrid := (memeGrid s)[i := m]\<rparr>))
          else Some s)"

fun run :: "(env \<times> event) list \<Rightarrow> page \<Rightarrow> page option" where
  "run [] s = Some s"
| "run ((E, ev) # evs) s = (case step E ev s of None \<Rightarrow> None | Some s' \<Rightarrow> run evs s')"

text \<open>When the script starts, the form is empty and the grid holds no meme.\<close>

definition initialPage :: "int \<Rightarrow> page" where
  "initialPage w =
     \<lparr>imageUrlInput = [], topTextInput = [], bottomTextInput = [], memeGrid = [],
      oldWindowWidth = w\<rparr>"

definition atMostOneCurtain :: "meme list \<Rightarrow> bool" where
  "atMostOneCurtain ms = (length (filter curtain ms) \<le> 1)"

definition noCurtain :: "meme list \<Rightarrow> bool" where
  "noCurtain ms = (filter curtain ms = [])"

section \<open>A concrete layout\<close>

text \<open>
  A layout for running the functions on concrete memes: each caption paragraph is one
  line as high as the font size (never less than 0) plus \<open>pad\<close> pixels of padding, and
  the container is \<open>h\<close> pixels high whatever the font size; the window is \<open>w\<close> wide.
\<close>

definition exampleEnv :: "int \<Rightarrow> int \<Rightarrow> int \<Rightarrow> env" where
  "exampleEnv w pad h =
     \<lparr>innerWidth = w, mqlHover = True, cssFontSize = 40,
      toUpperCaseOther = (\<lambda>s. s),
      topOffsetHeight = (\<lambda>m. max 0 (fontSize m) + pad),
      bottomOffsetHeight = (\<lambda>m. max 0 (fontSize m) + pad),
      memeOffsetHeight = (\<lambda>m. h)\<rparr>"

definition exampleMeme :: "int \<Rightarrow> bool \<Rightarrow> meme" where
  "exampleMeme f c =
     \<lparr>imgSrc = ''u1'', topText = ''HELLO'', bottomText = ''WORLD'', fontSize = f,
      curtain = c, hoverListeners = True\<rparr>"

text \<open>A page with three memes, the second one armed, and a run of events from the start.\<close>

definition examplePage :: page where
  "examplePage =
     \<lparr>imageUrlInput = [], topTextInput = [], bottomTextInput = [],
      memeGrid = [exampleMeme 28 False, exampleMeme 40 True, exampleMeme 30 False],
      oldWindowWidth = 800\<rparr>"

definition exampleEvents :: "(env \<times> event) list" where
  "exampleEvents =
     [(exampleEnv 800 0 56, Edit ''u1'' ''Hello'' ''World''),
      (exampleEnv 800 0 56, Submit),
      (exampleEnv 800 0 56, Load 0),
      (exampleEnv 800 0 56, Edit ''u1'' ''Hello'' ''World''),
      (exampleEnv 800 0 56, Submit),
      (exampleEnv 800 0 56, Click (Some 0)),
      (exampleEnv 800 0 56, MouseOver 1),
      (exampleEnv 900 0 64, Resize)]"



section \<open>The shrink pass\<close>

text \<open>
  A shrink pass that returns has reached a fitting size, and it changed nothing of the
  meme but the font size, which it only lowered. It returns as soon as some size below
  the starting one fits.
\<close>

lemma shrinkTextToFitHelper_post:
  assumes "shrinkTextToFitHelper E m f = Some m'"
  shows "textFits E m' \<and> (m' = m \<or> (\<exists>n<f. m' = m\<lparr>fontSize := n\<rparr>))"
  using assms
proof (rule shrinkTextToFitHelper.raw_induct [rotated 1,
    where P = "\<lambda>E m f m'. textFits E m' \<and> (m' = m \<or> (\<exists>n<f. m' = m\<lparr>fontSize := n\<rparr>))"])
  fix h E m f m'
  assume IH: "\<And>E m f m'. h E m f = Some m' \<Longrightarrow>
      textFits E m' \<and> (m' = m \<or> (\<exists>n<f. m' = m\<lparr>fontSize := n\<rparr>))"
    and eq: "(if textFits E m then Some m
      else let newFontSize = f - 1 in h E (m\<lparr>fontSize := newFontSize\<rparr>) newFontSize) = Some m'"
  show "textFits E m' \<and> (m' = m \<or> (\<exists>n<f. m' = m\<lparr>fontSize := n\<rparr>))"
  proof (cases "textFits E m")
    case True
    with eq show ?thesis by simp
  next
    case False
    with eq have "h E (m\<lparr>fontSize := f - 1\<rparr>) (f - 1) = Some m'" by (simp add: Let_def)
    then have "textFits E m' \<and> (m' = m\<lparr>fontSize := f - 1\<rparr> \<or> (\<exists>n<f - 1. m' = m\<lparr>fontSize := f - 1\<rparr>\<lparr>fontSize := n\<rparr>))"
      by (rule IH)
    then consider "textFits E m'" "m' = m\<lparr>fontSize := f - 1\<rparr>"
      | n where "textFits E m'" "n < f - 1" "m' = m\<lparr>fontSize := n\<rparr>" by auto
    then show ?thesis
    proof cases
      case 1
      have "f - 1 < f" by simp
      with 1 show ?thesis by blast
    next
      case 2
      then have "n < f" by simp
      with 2 show ?thesis by blast
    qed
  qed
qed

lemma shrinkTextToFitHelper_fits:
  "textFits E m \<Longrightarrow> shrinkTextToFitHelper E m f = Some m"
  by (subst shrinkTextToFitHelper.simps) simp

lemma shrinkTextToFitHelper_step:
  "\<not> textFits E m \<Longrightarrow>
     shrinkTextToFitHelper E m f = shrinkTextToFitHelper E (m\<lparr>fontSize := f - 1\<rparr>) (f - 1)"
  by (subst shrinkTextToFitHelper.simps) (simp add: Let_def)

lemma shrinkTextToFitHelper_returns:
  "textFits E (m\<lparr>fontSize := f - int (Suc k)\<rparr>) \<Longrightarrow> \<exists>m'. shrinkTextToFitHelper E m f = Some m'"
proof (induction k arbitrary: m f)
  case 0
  show ?case
  proof (cases "textFits E m")
    case True
    then show ?thesis by (simp add: shrinkTextToFitHelper_fits)
  next
    case False
    from 0 have "textFits E (m\<lparr>fontSize := f - 1\<rparr>)" by simp
    then show ?thesis
      by (simp add: shrinkTextToFitHelper_step [OF False] shrinkTextToFitHelper_fits)
  qed
next
  case (Suc k)
  show ?case
  proof (cases "textFits E m")
    case True
    then show ?thesis by (simp add: shrinkTextToFitHelper_fits)
  next
    case False
    have "f - int (Suc (Suc k)) = f - 1 - int (Suc k)" by simp
    with Suc.prems have "textFits E (m\<lparr>fontSize := f - 1 - int (Suc k)\<rparr>)"
      by (simp only:)
    moreover have "m\<lparr>fontSize := f - 1\<rparr>\<lparr>fontSize := f - 1 - int (Suc k)\<rparr>
        = m\<lparr>fontSize := f - 1 - int (Suc k)\<rparr>" by simp
    ultimately have "textFits E (m\<lparr>fontSize := f - 1\<rparr>\<lparr>fontSize := f - 1 - int (Suc k)\<rparr>)"
      by (simp only:)
    then have "\<exists>m'. shrinkTextToFitHelper E (m\<lparr>fontSize := f - 1\<rparr>) (f - 1) = Some m'"
      by (rule Suc.IH)
    then show ?thesis by (simp add: shrinkTextToFitHelper_step [OF False])
  qed
qed

lemma shrinkTextToFit_post:
  assumes "shrinkTextToFit E m = Some m'"
  shows "textFits E m' \<and> (\<exists>n\<le>fontSize m. m' = m\<lparr>fontSize := n\<rparr>)"
proof -
  from assms have "shrinkTextToFitHelper E m (fontSize m) = Some m'"
    by (simp add: shrinkTextToFit_def)
  then have fits: "textFits E m'"
    and shape: "m' = m \<or> (\<exists>n<fontSize m. m' = m\<lparr>fontSize := n\<rparr>)"
    using shrinkTextToFitHelper_post by blast+
  from shape have "\<exists>n\<le>fontSize m. m' = m\<lparr>fontSize := n\<rparr>"
  proof
    assume "m' = m"
    then have "m' = m\<lparr>fontSize := fontSize m\<rparr>" by simp
    then show ?thesis by blast
  next
    assume "\<exists>n<fontSize m. m' = m\<lparr>fontSize := n\<rparr>"
    then obtain n where "n < fontSize m" "m' = m\<lparr>fontSize := n\<rparr>" by blast
    then have "n \<le> fontSize m \<and> m' = m\<lparr>fontSize := n\<rparr>" by simp
    then show ?thesis by blast
  qed
  with fits show ?thesis by simp
qed

lemma shrinkTextToFit_returns:
  assumes "n \<le> fontSize m" and "textFits E (m\<lparr>fontSize := n\<rparr>)"
  shows "\<exists>m'. shrinkTextToFit E m = Some m'"
proof (cases "n = fontSize m")
  case True
  with assms have "textFits E m" by simp
  then show ?thesis by (simp add: shrinkTextToFit_def shrinkTextToFitHelper_fits)
next
  case False
  with assms(1) have "fontSize m - int (Suc (nat (fontSize m - n - 1))) = n" by simp
  with assms(2) have "textFits E (m\<lparr>fontSize := fontSize m - int (Suc (nat (fontSize m - n - 1)))\<rparr>)"
    by simp
  then have "\<exists>m'. shrinkTextToFitHelper E m (fontSize m) = Some m'"
    by (rule shrinkTextToFitHelper_returns)
  then show ?thesis by (simp add: shrinkTextToFit_def)
qed


lemma shrinkTextToFit_one_step:
  assumes "\<not> textFits E (m\<lparr>fontSize := g + 1\<rparr>)" and "textFits E (m\<lparr>fontSize := g\<rparr>)"
  shows "shrinkTextToFit E (m\<lparr>fontSize := g + 1\<rparr>) = Some (m\<lparr>fontSize := g\<rparr>)"
  using assms
  by (simp add: shrinkTextToFit_def shrinkTextToFitHelper_step shrinkTextToFitHelper_fits)

lemma shrinkTextToFit_shape:
  assumes "shrinkTextToFit E m = Some m'"
  shows "\<exists>n. m' = m\<lparr>fontSize := n\<rparr>"
proof -
  from shrinkTextToFit_post [OF assms] obtain n where "m' = m\<lparr>fontSize := n\<rparr>" by (elim conjE exE)
  then show ?thesis ..
qed

lemma shrinkTextToFit_fontSize:
  assumes "shrinkTextToFit E m = Some m'"
  shows "fontSize m' \<le> fontSize m"
proof -
  from shrinkTextToFit_post [OF assms] obtain n where "n \<le> fontSize m" "m' = m\<lparr>fontSize := n\<rparr>"
    by (elim conjE exE)
  then show ?thesis by simp
qed

section \<open>The grow pass\<close>

text \<open>
  A grow pass changes the font size only, and never to more than 40 unless the meme
  came with more. While the caption fits it moves one size up.
\<close>

lemma growTextToFit_post:
  "growTextToFit E m = Some m' \<Longrightarrow> \<exists>n\<le>max 40 (fontSize m). m' = m\<lparr>fontSize := n\<rparr>"
proof (induction E m rule: growTextToFit.induct)
  case (1 E m)
  show ?case
  proof (cases "fontSize m \<ge> 40")
    case True
    with "1.prems" have "m' = m\<lparr>fontSize := fontSize m\<rparr>" by simp
    moreover have "fontSize m \<le> max 40 (fontSize m)" by simp
    ultimately show ?thesis by blast
  next
    case small: False
    show ?thesis
    proof (cases "textFits E m")
      case False
      with small "1.prems" have "shrinkTextToFit E m = Some m'" by simp
      then obtain n where "n \<le> fontSize m" "m' = m\<lparr>fontSize := n\<rparr>"
        using shrinkTextToFit_post by blast
      then have "n \<le> max 40 (fontSize m) \<and> m' = m\<lparr>fontSize := n\<rparr>" by simp
      then show ?thesis by blast
    next
      case True
      with small "1.prems" have "growTextToFit E (m\<lparr>fontSize := fontSize m + 1\<rparr>) = Some m'"
        by (simp add: Let_def)
      with "1.IH" small True obtain n where
        "n \<le> max 40 (fontSize (m\<lparr>fontSize := fontSize m + 1\<rparr>))"
        "m' = m\<lparr>fontSize := fontSize m + 1\<rparr>\<lparr>fontSize := n\<rparr>" by (auto simp: Let_def)
      with small have "n \<le> max 40 (fontSize m) \<and> m' = m\<lparr>fontSize := n\<rparr>" by simp
      then show ?thesis by blast
    qed
  qed
qed

lemma growTextToFit_shape:
  assumes "growTextToFit E m = Some m'"
  shows "\<exists>n. m' = m\<lparr>fontSize := n\<rparr>"
proof -
  from growTextToFit_post [OF assms] obtain n where "m' = m\<lparr>fontSize := n\<rparr>" by (elim conjE exE)
  then show ?thesis ..
qed

lemma growTextToFit_fontSize:
  assumes "growTextToFit E m = Some m'"
  shows "fontSize m' \<le> max 40 (fontSize m)"
proof -
  from growTextToFit_post [OF assms] obtain n where "n \<le> max 40 (fontSize m)" "m' = m\<lparr>fontSize := n\<rparr>"
    by (elim conjE exE)
  then show ?thesis by simp
qed

lemma growTextToFit_step:
  "fontSize m < 40 \<Longrightarrow> textFits E m \<Longrightarrow>
     growTextToFit E m = growTextToFit E (m\<lparr>fontSize := fontSize m + 1\<rparr>)"
  by (subst growTextToFit.simps) (simp add: Let_def)

lemma growTextToFit_all_fit:
  "fontSize m < 40 \<Longrightarrow> (\<forall>n. fontSize m \<le> n \<and> n < 40 \<longrightarrow> textFits E (m\<lparr>fontSize := n\<rparr>)) \<Longrightarrow>
     growTextToFit E m = Some (m\<lparr>fontSize := 40\<rparr>)"
proof (induction E m rule: growTextToFit.induct)
  case (1 E m)
  from "1.prems" have "textFits E (m\<lparr>fontSize := fontSize m\<rparr>)" by blast
  then have fits: "textFits E m" by simp
  with "1.prems"(1) have step: "growTextToFit E m = growTextToFit E (m\<lparr>fontSize := fontSize m + 1\<rparr>)"
    by (rule growTextToFit_step)
  show ?case
  proof (cases "fontSize m + 1 < 40")
    case False
    with "1.prems"(1) have "fontSize m + 1 = 40" by simp
    with step show ?thesis by simp
  next
    case True
    have "growTextToFit E (m\<lparr>fontSize := fontSize m + 1\<rparr>)
        = Some (m\<lparr>fontSize := fontSize m + 1\<rparr>\<lparr>fontSize := 40\<rparr>)"
    proof (rule "1.IH")
      show "\<not> 40 \<le> fontSize m" using "1.prems"(1) by simp
      show "\<not> \<not> textFits E m" using fits by simp
      show "fontSize (m\<lparr>fontSize := fontSize m + 1\<rparr>) < 40" using True by simp
      show "\<forall>n. fontSize (m\<lparr>fontSize := fontSize m + 1\<rparr>) \<le> n \<and> n < 40 \<longrightarrow>
          textFits E (m\<lparr>fontSize := fontSize m + 1\<rparr>\<lparr>fontSize := n\<rparr>)"
        using "1.prems"(2) by simp
    qed simp
    with step show ?thesis by simp
  qed
qed

lemma growTextToFit_overshoot:
  "fontSize m \<le> g \<Longrightarrow> g + 1 < 40 \<Longrightarrow>
   (\<forall>n. fontSize m \<le> n \<and> n \<le> g \<longrightarrow> textFits E (m\<lparr>fontSize := n\<rparr>)) \<Longrightarrow>
   \<not> textFits E (m\<lparr>fontSize := g + 1\<rparr>) \<Longrightarrow>
     growTextToFit E m = shrinkTextToFit E (m\<lparr>fontSize := g + 1\<rparr>)"
proof (induction E m rule: growTextToFit.induct)
  case (1 E m)
  from "1.prems" have small: "fontSize m < 40" by simp
  from "1.prems" have "textFits E (m\<lparr>fontSize := fontSize m\<rparr>)" by blast
  then have fits: "textFits E m" by simp
  with small have step: "growTextToFit E m = growTextToFit E (m\<lparr>fontSize := fontSize m + 1\<rparr>)"
    by (rule growTextToFit_step)
  show ?case
  proof (cases "fontSize m = g")
    case True
    with "1.prems"(2,4) have "growTextToFit E (m\<lparr>fontSize := g + 1\<rparr>)
        = shrinkTextToFit E (m\<lparr>fontSize := g + 1\<rparr>)"
      by (subst growTextToFit.simps) simp
    with step True show ?thesis by simp
  next
    case False
    have "growTextToFit E (m\<lparr>fontSize := fontSize m + 1\<rparr>)
        = shrinkTextToFit E (m\<lparr>fontSize := fontSize m + 1\<rparr>\<lparr>fontSize := g + 1\<rparr>)"
    proof (rule "1.IH")
      show "\<not> 40 \<le> fontSize m" using small by simp
      show "\<not> \<not> textFits E m" using fits by simp
      show "fontSize (m\<lparr>fontSize := fontSize m + 1\<rparr>) \<le> g" using False "1.prems"(1) by simp
      show "g + 1 < 40" by fact
      show "\<forall>n. fontSize (m\<lparr>fontSize := fontSize m + 1\<rparr>) \<le> n \<and> n \<le> g \<longrightarrow>
          textFits E (m\<lparr>fontSize := fontSize m + 1\<rparr>\<lparr>fontSize := n\<rparr>)"
        using "1.prems"(3) by simp
      show "\<not> textFits E (m\<lparr>fontSize := fontSize m + 1\<rparr>\<lparr>fontSize := g + 1\<rparr>)"
        using "1.prems"(4) by simp
    qed simp
    with step show ?thesis by simp
  qed
qed

section \<open>Passes over all memes\<close>

lemma forEach_Some:
  "forEach f xs = Some ys \<Longrightarrow> list_all2 (\<lambda>x y. f x = Some y) xs ys"
proof (induction xs arbitrary: ys)
  case Nil
  then show ?case by simp
next
  case (Cons x xs)
  from Cons.prems obtain y ys' where "f x = Some y" "forEach f xs = Some ys'" "ys = y # ys'"
    by (cases "f x"; cases "forEach f xs") simp_all
  with Cons.IH show ?case by simp
qed



lemma list_all2_fontSize:
  assumes "list_all2 (\<lambda>x y. fontSize x \<le> 40 \<longrightarrow> fontSize y \<le> 40) xs ys"
    and "\<forall>m\<in>set xs. fontSize m \<le> 40"
  shows "\<forall>m\<in>set ys. fontSize m \<le> 40"
  using assms by (induction rule: list_all2_induct) simp_all

lemma forEach_shrink_fontSize:
  assumes "forEach (shrinkTextToFit E) ms = Some ms'" and "\<forall>m\<in>set ms. fontSize m \<le> 40"
  shows "\<forall>m\<in>set ms'. fontSize m \<le> 40"
proof -
  from assms(1) have "list_all2 (\<lambda>x y. shrinkTextToFit E x = Some y) ms ms'" by (rule forEach_Some)
  then have "list_all2 (\<lambda>x y. fontSize x \<le> 40 \<longrightarrow> fontSize y \<le> 40) ms ms'"
  proof (rule list_all2_mono)
    fix x y assume "shrinkTextToFit E x = Some y"
    then have "fontSize y \<le> fontSize x" by (rule shrinkTextToFit_fontSize)
    then show "fontSize x \<le> 40 \<longrightarrow> fontSize y \<le> 40" by simp
  qed
  then show ?thesis using assms(2) by (rule list_all2_fontSize)
qed

lemma forEach_grow_fontSize:
  assumes "forEach (growTextToFit E) ms = Some ms'" and "\<forall>m\<in>set ms. fontSize m \<le> 40"
  shows "\<forall>m\<in>set ms'. fontSize m \<le> 40"
proof -
  from assms(1) have "list_all2 (\<lambda>x y. growTextToFit E x = Some y) ms ms'" by (rule forEach_Some)
  then have "list_all2 (\<lambda>x y. fontSize x \<le> 40 \<longrightarrow> fontSize y \<le> 40) ms ms'"
  proof (rule list_all2_mono)
    fix x y assume "growTextToFit E x = Some y"
    then have "fontSize y \<le> max 40 (fontSize x)" by (rule growTextToFit_fontSize)
    then show "fontSize x \<le> 40 \<longrightarrow> fontSize y \<le> 40" by (simp add: max_def split: if_splits)
  qed
  then show ?thesis using assms(2) by (rule list_all2_fontSize)
qed

lemma adjustMemeTextSize_fontSize:
  assumes "adjustMemeTextSize E s = Some s'" and "\<forall>m\<in>set (memeGrid s). fontSize m \<le> 40"
  shows "\<forall>m\<in>set (memeGrid s'). fontSize m \<le> 40"
proof -
  consider (shrink) "innerWidth E < oldWindowWidth s"
    | (grow) "\<not> innerWidth E < oldWindowWidth s" "oldWindowWidth s < innerWidth E"
    | (same) "\<not> innerWidth E < oldWindowWidth s" "\<not> oldWindowWidth s < innerWidth E" by blast
  then show ?thesis
  proof cases
    case shrink
    with assms(1) obtain ms where "forEach (shrinkTextToFit E) (memeGrid s) = Some ms"
      "memeGrid s' = ms"
      by (cases "forEach (shrinkTextToFit E) (memeGrid s)")
        (auto simp: adjustMemeTextSize_def Let_def)
    with assms(2) show ?thesis using forEach_shrink_fontSize by blast
  next
    case grow
    with assms(1) obtain ms where "forEach (growTextToFit E) (memeGrid s) = Some ms"
      "memeGrid s' = ms"
      by (cases "forEach (growTextToFit E) (memeGrid s)")
        (auto simp: adjustMemeTextSize_def Let_def)
    with assms(2) show ?thesis using forEach_grow_fontSize by blast
  next
    case same
    with assms show ?thesis by (auto simp: adjustMemeTextSize_def Let_def)
  qed
qed

section \<open>Counting curtains\<close>

text \<open>
  The handlers keep the number of visible curtains at one or less: \<open>removeCurtain\<close>
  hides the only one there may be before \<open>addCurtain\<close> shows another, and the fit
  passes do not touch curtains.
\<close>

lemma curtain_count_cong:
  "map curtain ms' = map curtain ms \<Longrightarrow> length (filter curtain ms') = length (filter curtain ms)"
proof (induction ms arbitrary: ms')
  case Nil
  then show ?case by simp
next
  case (Cons m ms)
  then obtain m' ms'' where "ms' = m' # ms''" "curtain m' = curtain m"
    "map curtain ms'' = map curtain ms" by (cases ms') simp_all
  with Cons.IH [of ms''] show ?case by simp
qed

lemma atMostOneCurtain_cong:
  "map curtain ms' = map curtain ms \<Longrightarrow> atMostOneCurtain ms \<Longrightarrow> atMostOneCurtain ms'"
  using curtain_count_cong [of ms' ms] by (simp add: atMostOneCurtain_def)

lemma noCurtain_iff: "noCurtain ms \<longleftrightarrow> (\<forall>m\<in>set ms. \<not> curtain m)"
  by (simp add: noCurtain_def filter_empty_conv)

lemma noCurtain_atMostOne: "noCurtain ms \<Longrightarrow> atMostOneCurtain ms"
  by (simp add: noCurtain_def atMostOneCurtain_def)

lemma removeCurtain_noCurtain:
  "atMostOneCurtain ms \<Longrightarrow> noCurtain (removeCurtain ms)"
  by (induction ms) (auto simp: atMostOneCurtain_def noCurtain_def)

lemma addCurtain_atMostOne:
  "noCurtain ms \<Longrightarrow> atMostOneCurtain (addCurtain i ms)"
proof (induction ms arbitrary: i)
  case Nil
  then show ?case by (simp add: addCurtain_def atMostOneCurtain_def)
next
  case (Cons m ms)
  then have IH: "atMostOneCurtain (addCurtain j ms)" for j by (simp add: noCurtain_def split: if_splits)
  from Cons.prems have nc: "\<not> curtain m" "filter curtain ms = []"
    by (simp_all add: noCurtain_def split: if_splits)
  show ?case
  proof (cases i)
    case 0
    with nc show ?thesis by (simp add: addCurtain_def atMostOneCurtain_def)
  next
    case (Suc j)
    with nc IH [of j] show ?thesis by (simp add: addCurtain_def atMostOneCurtain_def)
  qed
qed

lemma deleteMeme_count:
  "length (filter curtain (deleteMeme i ms)) \<le> length (filter curtain ms)"
proof -
  have "length (filter curtain (drop (Suc i) ms)) \<le> length (filter curtain (drop i ms))"
    by (cases "i < length ms") (simp_all add: Cons_nth_drop_Suc [symmetric])
  moreover have "length (filter curtain ms)
      = length (filter curtain (take i ms)) + length (filter curtain (drop i ms))"
    by (metis append_take_drop_id filter_append length_append)
  ultimately show ?thesis by (simp add: deleteMeme_def)
qed

lemma deleteMeme_atMostOne:
  "atMostOneCurtain ms \<Longrightarrow> atMostOneCurtain (deleteMeme i ms)"
  using deleteMeme_count [of i ms] by (simp add: atMostOneCurtain_def)

lemma fontSize_update_curtains:
  "list_all2 (\<lambda>x y. \<exists>n. y = x\<lparr>fontSize := n\<rparr>) xs ys \<Longrightarrow> map curtain ys = map curtain xs"
proof (induction rule: list_all2_induct)
  case Nil
  show ?case by simp
next
  case (Cons x xs y ys)
  from Cons.hyps(1) obtain n where "y = x\<lparr>fontSize := n\<rparr>" ..
  then have "curtain y = curtain x" by simp
  with Cons.IH show ?case by simp
qed

lemma forEach_shrink_curtains:
  assumes "forEach (shrinkTextToFit E) ms = Some ms'"
  shows "map curtain ms' = map curtain ms"
proof -
  from assms have "list_all2 (\<lambda>x y. shrinkTextToFit E x = Some y) ms ms'" by (rule forEach_Some)
  then have "list_all2 (\<lambda>x y. \<exists>n. y = x\<lparr>fontSize := n\<rparr>) ms ms'"
    by (rule list_all2_mono) (rule shrinkTextToFit_shape)
  then show ?thesis by (rule fontSize_update_curtains)
qed

lemma forEach_grow_curtains:
  assumes "forEach (growTextToFit E) ms = Some ms'"
  shows "map curtain ms' = map curtain ms"
proof -
  from assms have "list_all2 (\<lambda>x y. growTextToFit E x = Some y) ms ms'" by (rule forEach_Some)
  then have "list_all2 (\<lambda>x y. \<exists>n. y = x\<lparr>fontSize := n\<rparr>) ms ms'"
    by (rule list_all2_mono) (rule growTextToFit_shape)
  then show ?thesis by (rule fontSize_update_curtains)
qed

lemma adjustMemeTextSize_curtains:
  "adjustMemeTextSize E s = Some s' \<Longrightarrow> map curtain (memeGrid s') = map curtain (memeGrid s)"
  by (auto simp: adjustMemeTextSize_def Let_def forEach_shrink_curtains forEach_grow_curtains
      split: if_splits option.splits)

lemma generateMeme_curtains:
  "filter curtain (memeGrid (generateMeme E s)) = filter curtain (memeGrid s)"
  by (simp add: generateMeme_def Let_def)

lemma memeClickHandler_atMostOne:
  "atMostOneCurtain (memeGrid s) \<Longrightarrow> atMostOneCurtain (memeGrid (memeClickHandler t s))"
  by (auto simp: memeClickHandler_def deleteMeme_atMostOne addCurtain_atMostOne
      removeCurtain_noCurtain noCurtain_atMostOne split: option.splits)

lemma mouseOverHandler_atMostOne:
  "atMostOneCurtain (memeGrid s) \<Longrightarrow> atMostOneCurtain (memeGrid (mouseOverHandler i s))"
  by (simp add: mouseOverHandler_def addCurtain_atMostOne removeCurtain_noCurtain)

lemma mouseLeaveHandler_noCurtain:
  "atMostOneCurtain (memeGrid s) \<Longrightarrow> noCurtain (memeGrid (mouseLeaveHandler i s))"
  by (simp add: mouseLeaveHandler_def removeCurtain_noCurtain)

lemma load_curtains:
  assumes "i < length ms" and "shrinkTextToFit E (ms ! i) = Some m"
  shows "map curtain (ms[i := m]) = map curtain ms"
proof -
  from assms(2) obtain n where "m = (ms ! i)\<lparr>fontSize := n\<rparr>" using shrinkTextToFit_shape by blast
  then have "curtain m = curtain (ms ! i)" by simp
  with assms(1) show ?thesis by (simp add: map_update list_update_same_conv)
qed

lemma step_atMostOne:
  assumes "atMostOneCurtain (memeGrid s)" and "step E ev s = Some s'"
  shows "atMostOneCurtain (memeGrid s')"
proof (cases ev)
  case (Edit u t b)
  with assms show ?thesis by (auto simp: step_def)
next
  case Submit
  with assms show ?thesis by (auto simp: step_def atMostOneCurtain_def generateMeme_curtains)
next
  case (Click t)
  with assms show ?thesis by (auto simp: step_def memeClickHandler_atMostOne)
next
  case (MouseOver i)
  with assms show ?thesis by (auto simp: step_def mouseOverHandler_atMostOne split: if_splits)
next
  case (MouseLeave i)
  with assms show ?thesis
    by (auto simp: step_def mouseLeaveHandler_noCurtain noCurtain_atMostOne split: if_splits)
next
  case Resize
  with assms have "map curtain (memeGrid s') = map curtain (memeGrid s)"
    by (simp add: step_def adjustMemeTextSize_curtains)
  then show ?thesis using assms(1) by (rule atMostOneCurtain_cong)
next
  case (Load i)
  show ?thesis
  proof (cases "i < length (memeGrid s)")
    case False
    with Load assms show ?thesis by (simp add: step_def)
  next
    case True
    with Load assms(2) obtain m where m: "shrinkTextToFit E (memeGrid s ! i) = Some m"
      and s': "s' = s\<lparr>memeGrid := (memeGrid s)[i := m]\<rparr>"
      by (auto simp: step_def split: option.splits)
    from True m have "map curtain ((memeGrid s)[i := m]) = map curtain (memeGrid s)"
      by (rule load_curtains)
    then have "atMostOneCurtain ((memeGrid s)[i := m])" using assms(1) by (rule atMostOneCurtain_cong)
    with s' show ?thesis by simp
  qed
qed

lemma run_atMostOne:
  "atMostOneCurtain (memeGrid s) \<Longrightarrow> run evs s = Some s' \<Longrightarrow> atMostOneCurtain (memeGrid s')"
proof (induction evs arbitrary: s)
  case Nil
  then show ?case by simp
next
  case (Cons a evs)
  obtain E ev where a: "a = (E, ev)" by (cases a)
  with Cons.prems(2) obtain s1 where s1: "step E ev s = Some s1" "run evs s1 = Some s'"
    by (auto split: option.splits)
  from Cons.prems(1) s1(1) have "atMostOneCurtain (memeGrid s1)" by (rule step_atMostOne)
  then show ?case using s1(2) by (rule Cons.IH)
qed

lemma removeCurtain_single:
  "atMostOneCurtain ms \<Longrightarrow> c < length ms \<Longrightarrow> curtain (ms ! c) \<Longrightarrow>
     removeCurtain ms = ms[c := (ms ! c)\<lparr>curtain := False\<rparr>]"
proof (induction ms arbitrary: c)
  case Nil
  then show ?case by simp
next
  case (Cons m ms)
  show ?case
  proof (cases "curtain m")
    case True
    with Cons.prems(1) have none: "filter curtain ms = []" by (simp add: atMostOneCurtain_def)
    have "c = 0"
    proof (rule ccontr)
      assume "c \<noteq> 0"
      then obtain j where j: "c = Suc j" by (cases c) simp_all
      with Cons.prems(2,3) have "j < length ms" "curtain (ms ! j)" by simp_all
      then have "ms ! j \<in> set (filter curtain ms)" by simp
      with none show False by simp
    qed
    with True show ?thesis by simp
  next
    case False
    with Cons.prems(3) obtain j where j: "c = Suc j" by (cases c) simp_all
    from False Cons.prems(1) have "atMostOneCurtain ms" by (simp add: atMostOneCurtain_def)
    moreover from j Cons.prems(2,3) have "j < length ms" "curtain (ms ! j)" by simp_all
    ultimately have "removeCurtain ms = ms[j := (ms ! j)\<lparr>curtain := False\<rparr>]" by (rule Cons.IH)
    with False j show ?thesis by simp
  qed
qed

lemma deleteMeme_armed_noCurtain:
  assumes "atMostOneCurtain ms" "i < length ms" "curtain (ms ! i)"
  shows "noCurtain (deleteMeme i ms)"
proof -
  from assms(2) have "ms = take i ms @ ms ! i # drop (Suc i) ms" by (rule id_take_nth_drop)
  then have "filter curtain ms
      = filter curtain (take i ms) @ filter curtain (ms ! i # drop (Suc i) ms)"
    by (metis filter_append)
  with assms(3) have "length (filter curtain ms)
      = length (filter curtain (take i ms)) + 1 + length (filter curtain (drop (Suc i) ms))"
    by simp
  with assms(1) have "filter curtain (take i ms) = []" "filter curtain (drop (Suc i) ms) = []"
    unfolding atMostOneCurtain_def by simp_all
  then show ?thesis by (simp add: noCurtain_def deleteMeme_def)
qed

section \<open>Font sizes under the handlers\<close>

lemma removeCurtain_fontSize:
  "\<forall>m\<in>set ms. fontSize m \<le> k \<Longrightarrow> \<forall>m\<in>set (removeCurtain ms). fontSize m \<le> k"
  by (induction ms) simp_all

lemma addCurtain_fontSize:
  assumes "\<forall>m\<in>set ms. fontSize m \<le> k"
  shows "\<forall>m\<in>set (addCurtain i ms). fontSize m \<le> k"
proof (cases "i < length ms")
  case True
  then have "fontSize ((ms ! i)\<lparr>curtain := True\<rparr>) \<le> k" using assms by simp
  moreover have "set (addCurtain i ms) \<subseteq> insert ((ms ! i)\<lparr>curtain := True\<rparr>) (set ms)"
    unfolding addCurtain_def by (rule set_update_subset_insert)
  ultimately show ?thesis using assms by blast
next
  case False
  then have "ms[i := (ms ! i)\<lparr>curtain := True\<rparr>] = ms" by (simp add: list_update_beyond)
  then show ?thesis using assms by (simp add: addCurtain_def)
qed

lemma deleteMeme_fontSize:
  assumes "\<forall>m\<in>set ms. fontSize m \<le> k"
  shows "\<forall>m\<in>set (deleteMeme i ms). fontSize m \<le> k"
proof
  fix m assume "m \<in> set (deleteMeme i ms)"
  then have "m \<in> set (take i ms) \<or> m \<in> set (drop (Suc i) ms)" by (simp add: deleteMeme_def)
  then have "m \<in> set ms" by (blast dest: in_set_takeD in_set_dropD)
  with assms show "fontSize m \<le> k" by simp
qed

lemma memeClickHandler_fontSize:
  assumes "\<forall>m\<in>set (memeGrid s). fontSize m \<le> k"
  shows "\<forall>m\<in>set (memeGrid (memeClickHandler t s)). fontSize m \<le> k"
proof -
  from assms have del: "\<forall>m\<in>set (deleteMeme i (memeGrid s)). fontSize m \<le> k" for i
    by (rule deleteMeme_fontSize)
  from assms have rem: "\<forall>m\<in>set (removeCurtain (memeGrid s)). fontSize m \<le> k"
    by (rule removeCurtain_fontSize)
  then have add: "\<forall>m\<in>set (addCurtain i (removeCurtain (memeGrid s))). fontSize m \<le> k" for i
    by (rule addCurtain_fontSize)
  show ?thesis
  proof (cases "closest (memeGrid s) t")
    case None
    with rem show ?thesis by (simp add: memeClickHandler_def)
  next
    case (Some i)
    show ?thesis
    proof (cases "ownCurtainVisible (memeGrid s ! i)")
      case True
      with Some del [of i] show ?thesis by (simp add: memeClickHandler_def)
    next
      case False
      with Some add [of i] show ?thesis by (simp add: memeClickHandler_def)
    qed
  qed
qed

lemma mouseOverHandler_fontSize:
  assumes "\<forall>m\<in>set (memeGrid s). fontSize m \<le> k"
  shows "\<forall>m\<in>set (memeGrid (mouseOverHandler i s)). fontSize m \<le> k"
proof -
  from assms have "\<forall>m\<in>set (removeCurtain (memeGrid s)). fontSize m \<le> k"
    by (rule removeCurtain_fontSize)
  then have "\<forall>m\<in>set (addCurtain i (removeCurtain (memeGrid s))). fontSize m \<le> k"
    by (rule addCurtain_fontSize)
  then show ?thesis by (simp add: mouseOverHandler_def)
qed

lemma mouseLeaveHandler_fontSize:
  assumes "\<forall>m\<in>set (memeGrid s). fontSize m \<le> k"
  shows "\<forall>m\<in>set (memeGrid (mouseLeaveHandler i s)). fontSize m \<le> k"
proof -
  from assms have "\<forall>m\<in>set (removeCurtain (memeGrid s)). fontSize m \<le> k"
    by (rule removeCurtain_fontSize)
  then show ?thesis by (simp add: mouseLeaveHandler_def)
qed

lemma step_fontSize:
  assumes "\<forall>m\<in>set (memeGrid s). fontSize m \<le> 40"
    and "ev = Submit \<longrightarrow> cssFontSize E \<le> 40"
    and "step E ev s = Some s'"
  shows "\<forall>m\<in>set (memeGrid s'). fontSize m \<le> 40"
proof (cases ev)
  case (Edit u t b)
  with assms show ?thesis by (auto simp: step_def)
next
  case Submit
  with assms(3) have "memeGrid s' = memeGrid s @
      [\<lparr>imgSrc = imageUrlInput s, topText = toUpperCase E (topTextInput s),
        bottomText = toUpperCase E (bottomTextInput s), fontSize = cssFontSize E,
        curtain = False, hoverListeners = mqlHover E\<rparr>]"
    by (auto simp: step_def generateMeme_def Let_def)
  with assms(1,2) Submit show ?thesis by simp
next
  case (Click t)
  with assms(3) have s': "s' = memeClickHandler t s" by (simp add: step_def)
  from assms(1) show ?thesis unfolding s' by (rule memeClickHandler_fontSize)
next
  case (MouseOver i)
  with assms(3) have "s' = mouseOverHandler i s \<or> s' = s" by (simp add: step_def split: if_splits)
  then show ?thesis
  proof
    assume s': "s' = mouseOverHandler i s"
    from assms(1) show ?thesis unfolding s' by (rule mouseOverHandler_fontSize)
  next
    assume "s' = s"
    with assms(1) show ?thesis by simp
  qed
next
  case (MouseLeave i)
  with assms(3) have "s' = mouseLeaveHandler i s \<or> s' = s" by (simp add: step_def split: if_splits)
  then show ?thesis
  proof
    assume s': "s' = mouseLeaveHandler i s"
    from assms(1) show ?thesis unfolding s' by (rule mouseLeaveHandler_fontSize)
  next
    assume "s' = s"
    with assms(1) show ?thesis by simp
  qed
next
  case Resize
  with assms(3) have "adjustMemeTextSize E s = Some s'" by (simp add: step_def)
  then show ?thesis using assms(1) by (rule adjustMemeTextSize_fontSize)
next
  case (Load i)
  show ?thesis
  proof (cases "i < length (memeGrid s)")
    case False
    with Load assms show ?thesis by (simp add: step_def)
  next
    case True
    with Load assms(3) obtain m where m: "shrinkTextToFit E (memeGrid s ! i) = Some m"
      and s': "s' = s\<lparr>memeGrid := (memeGrid s)[i := m]\<rparr>"
      by (auto simp: step_def split: option.splits)
    from m have "fontSize m \<le> fontSize (memeGrid s ! i)" by (rule shrinkTextToFit_fontSize)
    moreover from True assms(1) have "fontSize (memeGrid s ! i) \<le> 40" by simp
    ultimately have "fontSize m \<le> 40" by simp
    moreover have "set ((memeGrid s)[i := m]) \<subseteq> insert m (set (memeGrid s))"
      by (rule set_update_subset_insert)
    ultimately show ?thesis using assms(1) s' by auto
  qed
qed

section \<open>The concrete layout and run\<close>

lemma textFits_exampleEnv:
  "textFits (exampleEnv w pad h) m \<longleftrightarrow> 2 * (max 0 (fontSize m) + pad) \<le> h"
  by (simp add: textFits_def exampleEnv_def)

lemma exampleEnv_sel:
  "innerWidth (exampleEnv w pad h) = w"
  "mqlHover (exampleEnv w pad h) = True"
  "cssFontSize (exampleEnv w pad h) = 40"
  by (simp_all add: exampleEnv_def)

lemma toUpperChar_Hello: "map toUpperChar ''Hello'' = ''HELLO''"
  by code_simp

lemma toUpperChar_World: "map toUpperChar ''World'' = ''WORLD''"
  by code_simp

lemma toUpperCase_Hello: "toUpperCase E ''Hello'' = ''HELLO''"
proof -
  have "list_all (\<lambda>c. (of_char c :: nat) < 128) ''Hello''" by simp
  then have "toUpperCase E ''Hello'' = map toUpperChar ''Hello''"
    by (simp only: toUpperCase_def if_True)
  then show ?thesis by (simp only: toUpperChar_Hello)
qed

lemma toUpperCase_World: "toUpperCase E ''World'' = ''WORLD''"
proof -
  have "list_all (\<lambda>c. (of_char c :: nat) < 128) ''World''" by simp
  then have "toUpperCase E ''World'' = map toUpperChar ''World''"
    by (simp only: toUpperCase_def if_True)
  then show ?thesis by (simp only: toUpperChar_World)
qed

lemma run_exampleEvents:
  "run exampleEvents (initialPage 800) =
     Some \<lparr>imageUrlInput = [], topTextInput = [], bottomTextInput = [],
           memeGrid = [exampleMeme 32 False, exampleMeme 40 True],
           oldWindowWidth = 900\<rparr>"
  by (simp add: exampleEvents_def initialPage_def step_def generateMeme_def Let_def
      toUpperCase_Hello toUpperCase_World shrinkTextToFit_def shrinkTextToFitHelper.simps
      textFits_exampleEnv memeClickHandler_def closest_def ownCurtainVisible_def
      addCurtain_def mouseOverHandler_def adjustMemeTextSize_def exampleMeme_def exampleEnv_sel)

section \<open>The claims\<close>

text \<open>
  C1. A fit pass should leave the caption inside the container. The grow pass tests the
  font size against 40 before it measures: from 39, where the caption fits, it steps to
  40 and returns, although at 40 the caption is higher than the container. The resize
  handler of a window that got wider leaves the page so.
\<close>

theorem grow_pass_reaches_40_without_measuring:
  "textFits (exampleEnv 900 0 78) (exampleMeme 39 False)
   \<and> growTextToFit (exampleEnv 900 0 78) (exampleMeme 39 False) = Some (exampleMeme 40 False)
   \<and> \<not> textFits (exampleEnv 900 0 78) (exampleMeme 40 False)
   \<and> adjustMemeTextSize (exampleEnv 900 0 78)
        \<lparr>imageUrlInput = [], topTextInput = [], bottomTextInput = [],
         memeGrid = [exampleMeme 39 False], oldWindowWidth = 800\<rparr>
       = Some \<lparr>imageUrlInput = [], topTextInput = [], bottomTextInput = [],
               memeGrid = [exampleMeme 40 False], oldWindowWidth = 900\<rparr>"
  by (simp add: textFits_exampleEnv exampleMeme_def adjustMemeTextSize_def exampleEnv_sel)

text \<open>
  C2. Starting from a page where no curtain is visible, after every sequence of
  events whose handlers return (typing, submit, click, mouse over, mouse leave, resize,
  image load, each under any environment) at most one curtain is visible.
\<close>

theorem single_curtain_after_every_event:
  assumes "noCurtain (memeGrid s)" and "run evs s = Some s'"
  shows "atMostOneCurtain (memeGrid s')"
proof -
  from assms(1) have "atMostOneCurtain (memeGrid s)" by (rule noCurtain_atMostOne)
  then show ?thesis using assms(2) by (rule run_atMostOne)
qed

theorem single_curtain_after_every_event_witness:
  "noCurtain (memeGrid (initialPage 800))
   \<and> run exampleEvents (initialPage 800) =
       Some \<lparr>imageUrlInput = [], topTextInput = [], bottomTextInput = [],
             memeGrid = [exampleMeme 32 False, exampleMeme 40 True],
             oldWindowWidth = 900\<rparr>
   \<and> atMostOneCurtain [exampleMeme 32 False, exampleMeme 40 True]"
proof -
  have "noCurtain (memeGrid (initialPage 800))" by (simp add: noCurtain_def initialPage_def)
  with single_curtain_after_every_event [OF _ run_exampleEvents] run_exampleEvents
  show ?thesis by simp
qed

text \<open>
  C3. The font size stays at 40 or less: if no meme of the page is above 40, and the
  style sheet gives a new meme 40 or less whenever one is submitted, then after every
  sequence of events whose handlers return, hence after every sequence of grow passes,
  no meme is above 40.
\<close>

theorem font_size_never_exceeds_40:
  assumes "\<forall>m\<in>set (memeGrid s). fontSize m \<le> 40"
    and "\<forall>(E, ev)\<in>set evs. ev = Submit \<longrightarrow> cssFontSize E \<le> 40"
    and "run evs s = Some s'"
  shows "\<forall>m\<in>set (memeGrid s'). fontSize m \<le> 40"
  using assms
proof (induction evs arbitrary: s)
  case Nil
  then show ?case by simp
next
  case (Cons a evs)
  obtain E ev where a: "a = (E, ev)" by (cases a)
  with Cons.prems(3) obtain s1 where s1: "step E ev s = Some s1" "run evs s1 = Some s'"
    by (auto split: option.splits)
  from a Cons.prems(2) have "ev = Submit \<longrightarrow> cssFontSize E \<le> 40" by simp
  with Cons.prems(1) have "\<forall>m\<in>set (memeGrid s1). fontSize m \<le> 40"
    using s1(1) by (rule step_fontSize)
  moreover from Cons.prems(2) have "\<forall>(E, ev)\<in>set evs. ev = Submit \<longrightarrow> cssFontSize E \<le> 40"
    by simp
  ultimately show ?case using s1(2) by (rule Cons.IH)
qed

theorem font_size_never_exceeds_40_witness:
  "list_all (\<lambda>m. fontSize m \<le> 40) (memeGrid (initialPage 800))
   \<and> list_all (\<lambda>(E, ev). ev = Submit \<longrightarrow> cssFontSize E \<le> 40) exampleEvents
   \<and> run exampleEvents (initialPage 800) =
       Some \<lparr>imageUrlInput = [], topTextInput = [], bottomTextInput = [],
             memeGrid = [exampleMeme 32 False, exampleMeme 40 True],
             oldWindowWidth = 900\<rparr>
   \<and> list_all (\<lambda>m. fontSize m \<le> 40) [exampleMeme 32 False, exampleMeme 40 True]"
proof -
  have h1: "\<forall>m\<in>set (memeGrid (initialPage 800)). fontSize m \<le> 40"
    by (simp add: initialPage_def)
  have h2: "\<forall>(E, ev)\<in>set exampleEvents. ev = Submit \<longrightarrow> cssFontSize E \<le> 40"
    by (simp add: exampleEvents_def exampleEnv_sel)
  from font_size_never_exceeds_40 [OF h1 h2 run_exampleEvents] h1 h2 run_exampleEvents
  show ?thesis by (simp add: list_all_iff)
qed

text \<open>
  C4, as stated: whenever the fit predicate fails in a grow pass, the shrink pass it
  falls back to lowers the size by exactly one step. This fails when the caption does
  not fit at the size the pass starts from: nothing was grown, and the shrink pass
  takes as many steps as it needs, here two, from 30 to 28.
\<close>

theorem grow_pass_shrinks_two_steps:
  "fontSize (exampleMeme 30 False) < 40
   \<and> \<not> textFits (exampleEnv 800 0 56) (exampleMeme 30 False)
   \<and> \<not> textFits (exampleEnv 800 0 56) (exampleMeme 29 False)
   \<and> growTextToFit (exampleEnv 800 0 56) (exampleMeme 30 False) = Some (exampleMeme 28 False)"
  by (simp add: shrinkTextToFit_def shrinkTextToFitHelper.simps textFits_exampleEnv exampleMeme_def)

text \<open>
  C4, amended. A grow pass on a meme below 40:
  \<^item> if the caption fits at every size from the starting one up to 39, the pass ends at
    40;
  \<^item> if the caption fits from the starting size up to some \<open>g\<close> and not at \<open>g + 1\<close>,
    which is below 40, the pass is the shrink pass from the over-grown size \<open>g + 1\<close>,
    and that takes exactly one step, back to \<open>g\<close>;
  \<^item> if the caption does not fit at the starting size, the pass is the shrink pass from
    the starting size.
\<close>

theorem grow_pass_result:
  "fontSize m < 40 \<Longrightarrow>
     ((\<forall>n. fontSize m \<le> n \<and> n < 40 \<longrightarrow> textFits E (m\<lparr>fontSize := n\<rparr>)) \<longrightarrow>
        growTextToFit E m = Some (m\<lparr>fontSize := 40\<rparr>))
   \<and> (\<forall>g. fontSize m \<le> g \<and> g + 1 < 40
          \<and> (\<forall>n. fontSize m \<le> n \<and> n \<le> g \<longrightarrow> textFits E (m\<lparr>fontSize := n\<rparr>))
          \<and> \<not> textFits E (m\<lparr>fontSize := g + 1\<rparr>) \<longrightarrow>
        growTextToFit E m = shrinkTextToFit E (m\<lparr>fontSize := g + 1\<rparr>)
        \<and> shrinkTextToFit E (m\<lparr>fontSize := g + 1\<rparr>) = Some (m\<lparr>fontSize := g\<rparr>))
   \<and> (\<not> textFits E m \<longrightarrow> growTextToFit E m = shrinkTextToFit E m)"
proof (intro conjI allI impI)
  assume "fontSize m < 40" "\<forall>n. fontSize m \<le> n \<and> n < 40 \<longrightarrow> textFits E (m\<lparr>fontSize := n\<rparr>)"
  then show "growTextToFit E m = Some (m\<lparr>fontSize := 40\<rparr>)" by (rule growTextToFit_all_fit)
next
  fix g
  assume a: "fontSize m \<le> g \<and> g + 1 < 40
          \<and> (\<forall>n. fontSize m \<le> n \<and> n \<le> g \<longrightarrow> textFits E (m\<lparr>fontSize := n\<rparr>))
          \<and> \<not> textFits E (m\<lparr>fontSize := g + 1\<rparr>)"
  then show "growTextToFit E m = shrinkTextToFit E (m\<lparr>fontSize := g + 1\<rparr>)"
    by (intro growTextToFit_overshoot) simp_all
  from a have "textFits E (m\<lparr>fontSize := g\<rparr>)" by simp
  with a show "shrinkTextToFit E (m\<lparr>fontSize := g + 1\<rparr>) = Some (m\<lparr>fontSize := g\<rparr>)"
    by (intro shrinkTextToFit_one_step) simp_all
next
  assume "fontSize m < 40" "\<not> textFits E m"
  then show "growTextToFit E m = shrinkTextToFit E m" by (subst growTextToFit.simps) simp
qed

theorem grow_pass_result_witness:
  "fontSize (exampleMeme 20 False) < 40
   \<and> growTextToFit (exampleEnv 800 0 90) (exampleMeme 20 False) = Some (exampleMeme 40 False)
   \<and> growTextToFit (exampleEnv 800 0 56) (exampleMeme 20 False)
        = shrinkTextToFit (exampleEnv 800 0 56) (exampleMeme 29 False)
   \<and> shrinkTextToFit (exampleEnv 800 0 56) (exampleMeme 29 False) = Some (exampleMeme 28 False)
   \<and> \<not> textFits (exampleEnv 800 0 56) (exampleMeme 30 False)
   \<and> growTextToFit (exampleEnv 800 0 56) (exampleMeme 30 False)
        = shrinkTextToFit (exampleEnv 800 0 56) (exampleMeme 30 False)"
proof -
  have small: "fontSize (exampleMeme 20 False) < 40" "fontSize (exampleMeme 30 False) < 40"
    by (simp_all add: exampleMeme_def)
  have all: "\<forall>n. fontSize (exampleMeme 20 False) \<le> n \<and> n < 40 \<longrightarrow>
      textFits (exampleEnv 800 0 90) (exampleMeme 20 False\<lparr>fontSize := n\<rparr>)"
    by (simp add: textFits_exampleEnv)
  have upto: "fontSize (exampleMeme 20 False) \<le> 28 \<and> (28::int) + 1 < 40
      \<and> (\<forall>n. fontSize (exampleMeme 20 False) \<le> n \<and> n \<le> 28 \<longrightarrow>
            textFits (exampleEnv 800 0 56) (exampleMeme 20 False\<lparr>fontSize := n\<rparr>))
      \<and> \<not> textFits (exampleEnv 800 0 56) (exampleMeme 20 False\<lparr>fontSize := 28 + 1\<rparr>)"
    by (simp add: textFits_exampleEnv exampleMeme_def)
  have nofit: "\<not> textFits (exampleEnv 800 0 56) (exampleMeme 30 False)"
    by (simp add: textFits_exampleEnv exampleMeme_def)
  have upd: "exampleMeme 20 False\<lparr>fontSize := 40\<rparr> = exampleMeme 40 False"
    "exampleMeme 20 False\<lparr>fontSize := 28 + 1\<rparr> = exampleMeme 29 False"
    "exampleMeme 20 False\<lparr>fontSize := 28\<rparr> = exampleMeme 28 False"
    by (simp_all add: exampleMeme_def)
  from grow_pass_result [OF small(1), of "exampleEnv 800 0 90"] all
  have "growTextToFit (exampleEnv 800 0 90) (exampleMeme 20 False) = Some (exampleMeme 40 False)"
    by (simp only: upd)
  moreover from grow_pass_result [OF small(1), of "exampleEnv 800 0 56"] upto
  have "growTextToFit (exampleEnv 800 0 56) (exampleMeme 20 False)
        = shrinkTextToFit (exampleEnv 800 0 56) (exampleMeme 29 False)
      \<and> shrinkTextToFit (exampleEnv 800 0 56) (exampleMeme 29 False) = Some (exampleMeme 28 False)"
    unfolding upd [symmetric] by blast
  moreover from grow_pass_result [OF small(2), of "exampleEnv 800 0 56"] nofit
  have "growTextToFit (exampleEnv 800 0 56) (exampleMeme 30 False)
        = shrinkTextToFit (exampleEnv 800 0 56) (exampleMeme 30 False)" by blast
  ultimately show ?thesis using small nofit by blast
qed

text \<open>
  C5. The shrink pass returns exactly when some font size less than or equal to the
  starting size makes the caption fit; when it returns, the caption fits; and when no
  such size exists it never returns, since the loop has no lower bound.
\<close>

theorem shrink_pass_terminates_iff:
  "((\<exists>m'. shrinkTextToFit E m = Some m') \<longleftrightarrow> (\<exists>n\<le>fontSize m. textFits E (m\<lparr>fontSize := n\<rparr>)))
   \<and> (\<forall>m'. shrinkTextToFit E m = Some m' \<longrightarrow> textFits E m')
   \<and> ((\<forall>n\<le>fontSize m. \<not> textFits E (m\<lparr>fontSize := n\<rparr>)) \<longrightarrow> shrinkTextToFit E m = None)"
proof (intro conjI)
  show iff: "(\<exists>m'. shrinkTextToFit E m = Some m') \<longleftrightarrow> (\<exists>n\<le>fontSize m. textFits E (m\<lparr>fontSize := n\<rparr>))"
  proof
    assume "\<exists>m'. shrinkTextToFit E m = Some m'"
    then obtain m' where "shrinkTextToFit E m = Some m'" by blast
    then have "textFits E m' \<and> (\<exists>n\<le>fontSize m. m' = m\<lparr>fontSize := n\<rparr>)"
      by (rule shrinkTextToFit_post)
    then show "\<exists>n\<le>fontSize m. textFits E (m\<lparr>fontSize := n\<rparr>)" by blast
  next
    assume "\<exists>n\<le>fontSize m. textFits E (m\<lparr>fontSize := n\<rparr>)"
    then show "\<exists>m'. shrinkTextToFit E m = Some m'"
      using shrinkTextToFit_returns by blast
  qed
  show "\<forall>m'. shrinkTextToFit E m = Some m' \<longrightarrow> textFits E m'"
    using shrinkTextToFit_post by blast
  show "(\<forall>n\<le>fontSize m. \<not> textFits E (m\<lparr>fontSize := n\<rparr>)) \<longrightarrow> shrinkTextToFit E m = None"
    using iff by (cases "shrinkTextToFit E m") auto
qed

theorem shrink_pass_terminates_iff_witness:
  "(\<exists>m'. shrinkTextToFit (exampleEnv 800 0 56) (exampleMeme 30 False) = Some m'
        \<and> textFits (exampleEnv 800 0 56) m')
   \<and> shrinkTextToFit (exampleEnv 800 4 6) (exampleMeme 30 False) = None"
proof -
  have "(28::int) \<le> fontSize (exampleMeme 30 False)
      \<and> textFits (exampleEnv 800 0 56) (exampleMeme 30 False\<lparr>fontSize := 28\<rparr>)"
    by (simp add: textFits_exampleEnv exampleMeme_def)
  then have "\<exists>n\<le>fontSize (exampleMeme 30 False).
      textFits (exampleEnv 800 0 56) (exampleMeme 30 False\<lparr>fontSize := n\<rparr>)" by blast
  moreover have "\<forall>n\<le>fontSize (exampleMeme 30 False).
      \<not> textFits (exampleEnv 800 4 6) (exampleMeme 30 False\<lparr>fontSize := n\<rparr>)"
    by (simp add: textFits_exampleEnv max_def)
  ultimately show ?thesis
    using shrink_pass_terminates_iff [of "exampleEnv 800 0 56" "exampleMeme 30 False"]
      shrink_pass_terminates_iff [of "exampleEnv 800 4 6" "exampleMeme 30 False"]
    by blast
qed

text \<open>
  C6. A click on a meme whose curtain is visible removes exactly that meme: the grid is
  one shorter, the memes before it and after it are the same as before, in the same
  order, and the rest of the page is unchanged. When at most one curtain was visible,
  none is visible afterwards.
\<close>

theorem click_on_armed_meme_deletes_it:
  assumes "i < length (memeGrid s)" and "curtain (memeGrid s ! i)"
  shows "memeClickHandler (Some i) s
           = s\<lparr>memeGrid := take i (memeGrid s) @ drop (Suc i) (memeGrid s)\<rparr>
     \<and> length (memeGrid (memeClickHandler (Some i) s)) + 1 = length (memeGrid s)
     \<and> (\<forall>j<i. memeGrid (memeClickHandler (Some i) s) ! j = memeGrid s ! j)
     \<and> (\<forall>j. i \<le> j \<and> j + 1 < length (memeGrid s) \<longrightarrow>
           memeGrid (memeClickHandler (Some i) s) ! j = memeGrid s ! (j + 1))
     \<and> (atMostOneCurtain (memeGrid s) \<longrightarrow> noCurtain (memeGrid (memeClickHandler (Some i) s)))"
proof -
  from assms have eq: "memeClickHandler (Some i) s = s\<lparr>memeGrid := deleteMeme i (memeGrid s)\<rparr>"
    by (simp add: memeClickHandler_def closest_def ownCurtainVisible_def)
  have grid: "memeGrid (memeClickHandler (Some i) s) = take i (memeGrid s) @ drop (Suc i) (memeGrid s)"
    by (simp add: eq deleteMeme_def)
  have "length (take i (memeGrid s) @ drop (Suc i) (memeGrid s)) + 1 = length (memeGrid s)"
    using assms(1) by simp
  moreover have "\<forall>j<i. (take i (memeGrid s) @ drop (Suc i) (memeGrid s)) ! j = memeGrid s ! j"
    using assms(1) by (simp add: nth_append)
  moreover have "\<forall>j. i \<le> j \<and> j + 1 < length (memeGrid s) \<longrightarrow>
      (take i (memeGrid s) @ drop (Suc i) (memeGrid s)) ! j = memeGrid s ! (j + 1)"
    using assms(1) by (simp add: nth_append min_def)
  moreover have "atMostOneCurtain (memeGrid s) \<longrightarrow>
      noCurtain (take i (memeGrid s) @ drop (Suc i) (memeGrid s))"
    using deleteMeme_armed_noCurtain [OF _ assms] by (simp add: deleteMeme_def)
  ultimately show ?thesis unfolding grid using eq by (simp add: deleteMeme_def)
qed

theorem click_on_armed_meme_deletes_it_witness:
  "1 < length (memeGrid examplePage) \<and> curtain (memeGrid examplePage ! 1)
   \<and> atMostOneCurtain (memeGrid examplePage)
   \<and> memeClickHandler (Some 1) examplePage
        = examplePage\<lparr>memeGrid := [exampleMeme 28 False, exampleMeme 30 False]\<rparr>
   \<and> noCurtain (memeGrid (memeClickHandler (Some 1) examplePage))"
proof -
  have h: "1 < length (memeGrid examplePage)" "curtain (memeGrid examplePage ! 1)"
    "atMostOneCurtain (memeGrid examplePage)"
    by (simp_all add: examplePage_def exampleMeme_def atMostOneCurtain_def)
  have "take 1 (memeGrid examplePage) @ drop (Suc 1) (memeGrid examplePage)
      = [exampleMeme 28 False, exampleMeme 30 False]"
    by (simp add: examplePage_def)
  moreover have "noCurtain [exampleMeme 28 False, exampleMeme 30 False]"
    by (simp add: noCurtain_def exampleMeme_def)
  ultimately show ?thesis using click_on_armed_meme_deletes_it [OF h(1,2)] h by simp
qed




text \<open>
  C8. Submitting the form with image URL \<open>u\<close>, top text Hello and bottom text World
  appends one meme with that URL and the captions HELLO and WORLD, its curtain hidden,
  and leaves the three inputs empty; nothing else of the page changes.
\<close>

theorem submit_hello_world:
  "generateMeme E (s\<lparr>imageUrlInput := u, topTextInput := ''Hello'', bottomTextInput := ''World''\<rparr>)
     = s\<lparr>imageUrlInput := [], topTextInput := [], bottomTextInput := [],
         memeGrid := memeGrid s @
           [\<lparr>imgSrc = u, topText = ''HELLO'', bottomText = ''WORLD'',
             fontSize = cssFontSize E, curtain = False, hoverListeners = mqlHover E\<rparr>]\<rparr>"
  by (simp add: generateMeme_def Let_def toUpperCase_Hello toUpperCase_World)

theorem submit_hello_world_witness:
  "generateMeme (exampleEnv 800 0 56)
     ((initialPage 800)\<lparr>imageUrlInput := ''u1'', topTextInput := ''Hello'', bottomTextInput := ''World''\<rparr>)
     = \<lparr>imageUrlInput = [], topTextInput = [], bottomTextInput = [],
        memeGrid = [exampleMeme 40 False], oldWindowWidth = 800\<rparr>"
  using submit_hello_world [where E = "exampleEnv 800 0 56" and s = "initialPage 800" and u = "''u1''"]
  by (simp add: initialPage_def exampleMeme_def exampleEnv_sel)

text \<open>
  C9. When the curtain of meme \<open>c\<close> is visible (and, as in every reachable page, no
  other is), a mouse leave on any meme \<open>d\<close> that has the hover listeners, \<open>d\<close> equal
  to \<open>c\<close> or not, runs the handler, which hides the curtain of \<open>c\<close> and changes
  nothing else; no curtain is visible afterwards.
\<close>

theorem mouse_leave_lowers_the_visible_curtain:
  assumes "atMostOneCurtain (memeGrid s)"
    and "c < length (memeGrid s)" and "curtain (memeGrid s ! c)"
    and "d < length (memeGrid s)" and "hoverListeners (memeGrid s ! d)"
  shows "step E (MouseLeave d) s = Some (mouseLeaveHandler d s)
     \<and> mouseLeaveHandler d s = s\<lparr>memeGrid := (memeGrid s)[c := (memeGrid s ! c)\<lparr>curtain := False\<rparr>]\<rparr>
     \<and> noCurtain (memeGrid (mouseLeaveHandler d s))"
proof (intro conjI)
  from assms(4,5) show "step E (MouseLeave d) s = Some (mouseLeaveHandler d s)"
    by (simp add: step_def)
  from assms(1-3) have "removeCurtain (memeGrid s) = (memeGrid s)[c := (memeGrid s ! c)\<lparr>curtain := False\<rparr>]"
    by (rule removeCurtain_single)
  then show "mouseLeaveHandler d s = s\<lparr>memeGrid := (memeGrid s)[c := (memeGrid s ! c)\<lparr>curtain := False\<rparr>]\<rparr>"
    by (simp add: mouseLeaveHandler_def)
  from assms(1) show "noCurtain (memeGrid (mouseLeaveHandler d s))"
    by (rule mouseLeaveHandler_noCurtain)
qed

theorem mouse_leave_lowers_the_visible_curtain_witness:
  "atMostOneCurtain (memeGrid examplePage)
   \<and> curtain (memeGrid examplePage ! 1) \<and> hoverListeners (memeGrid examplePage ! 2)
   \<and> step (exampleEnv 800 0 56) (MouseLeave 2) examplePage
        = Some (examplePage\<lparr>memeGrid :=
            [exampleMeme 28 False, exampleMeme 40 False, exampleMeme 30 False]\<rparr>)
   \<and> noCurtain [exampleMeme 28 False, exampleMeme 40 False, exampleMeme 30 False]"
proof -
  have h: "atMostOneCurtain (memeGrid examplePage)"
    "1 < length (memeGrid examplePage)" "curtain (memeGrid examplePage ! 1)"
    "2 < length (memeGrid examplePage)" "hoverListeners (memeGrid examplePage ! 2)"
    by (simp_all add: examplePage_def exampleMeme_def atMostOneCurtain_def)
  have "(memeGrid examplePage)[1 := (memeGrid examplePage ! 1)\<lparr>curtain := False\<rparr>]
      = [exampleMeme 28 False, exampleMeme 40 False, exampleMeme 30 False]"
    by (simp add: examplePage_def exampleMeme_def)
  moreover have "noCurtain [exampleMeme 28 False, exampleMeme 40 False, exampleMeme 30 False]"
    by (simp add: noCurtain_def exampleMeme_def)
  ultimately show ?thesis
    using mouse_leave_lowers_the_visible_curtain [OF h, of "exampleEnv 800 0 56"] h by simp
qed

text \<open>
  C10. A grow pass on a meme whose font size is already 40 or more returns at once, the
  meme unchanged, whatever the layout is, hence also when the caption does not fit.
\<close>

theorem grow_at_max_returns_unchanged:
  "40 \<le> fontSize m \<Longrightarrow> growTextToFit E m = Some m"
  by simp

theorem grow_at_max_returns_unchanged_witness:
  "40 \<le> fontSize (exampleMeme 40 False)
   \<and> \<not> textFits (exampleEnv 800 0 60) (exampleMeme 40 False)
   \<and> growTextToFit (exampleEnv 800 0 60) (exampleMeme 40 False) = Some (exampleMeme 40 False)"
  using grow_at_max_returns_unchanged [of "exampleMeme 40 False" "exampleEnv 800 0 60"]
  by (simp add: textFits_exampleEnv exampleMeme_def)

end
